theory Spec2Isabelle
  imports Complex_Main "HOL-Library.Char_ord" "HOL-Library.List_Lexorder"
begin

section \<open>JavaScript strings and truthiness\<close>

text \<open>
  A JavaScript string is modelled as a \<^typ>\<open>string\<close>, one \<^typ>\<open>char\<close> per code unit;
  the model covers the strings whose code units lie in U+0000..U+00FF (Latin-1).
  \<open>string | null\<close> and an optional \<open>string\<close> field are a \<^typ>\<open>string option\<close>,
  with \<open>None\<close> for \<open>null\<close> and \<open>undefined\<close>.
\<close>

text \<open>
  \<open>String.prototype.toLowerCase\<close> on one Latin-1 code unit: A..Z and the accented capitals
  U+00C0..U+00DE (without the multiplication sign U+00D7) move up by 32, everything else
  stays.
\<close>

definition toLowerChar :: "char \<Rightarrow> char" where
  "toLowerChar c =
     (let n = (of_char c :: nat) in
      if (65 \<le> n \<and> n \<le> 90) \<or> (192 \<le> n \<and> n \<le> 222 \<and> n \<noteq> 215)
      then char_of (n + 32) else c)"

definition toLowerCase :: "string \<Rightarrow> string" where
  "toLowerCase s = map toLowerChar s"

text \<open>\<open>s.startsWith(p)\<close>.\<close>

definition startsWith :: "string \<Rightarrow> string \<Rightarrow> bool" where
  "startsWith s p = (take (length p) s = p)"

text \<open>\<open>s.includes(w)\<close>: \<open>w\<close> occurs in \<open>s\<close> at some position.\<close>

fun includes_str :: "string \<Rightarrow> string \<Rightarrow> bool" where
  "includes_str [] w = (w = [])"
| "includes_str (c # cs) w = (startsWith (c # cs) w \<or> includes_str cs w)"

text \<open>
  Truthiness of a \<open>string | null | undefined\<close> value: \<open>null\<close>, \<open>undefined\<close> and the empty
  string are falsy. \<open>a || b\<close> is \<open>a\<close> when \<open>a\<close> is truthy and \<open>b\<close> otherwise.
\<close>

definition truthy :: "string option \<Rightarrow> bool" where
  "truthy v = (case v of None \<Rightarrow> False | Some s \<Rightarrow> s \<noteq> [])"

definition js_or :: "string option \<Rightarrow> string option \<Rightarrow> string option" where
  "js_or a b = (if truthy a then a else b)"

section \<open>Channel selection (contact-finder, \<open>extractContactInfo\<close>)\<close>

datatype contact_type = Email | Form | Both | NoContact

text \<open>The object \<open>ContactSchema\<close> describes, as returned by \<open>stagehand.page.extract\<close>.\<close>

record extracted =
  emails :: "string list"
  hasContactForm :: bool
  formAction :: "string option"
  phoneNumbers :: "string list option"

text \<open>\<open>interface ContactInfo\<close> (\<open>rawText\<close> is never set by the code and is left out).\<close>

record ContactInfo =
  orgName :: string
  contactUrl :: string
  email :: "string option"
  formUrl :: "string option"
  contactType :: contact_type
  error :: "string option"

definition priorityPrefixes :: "string list" where
  "priorityPrefixes = [''info@'', ''contact@'', ''support@'', ''help@'', ''hello@'']"

text \<open>The callback of \<open>extracted.emails.find\<close>: \<open>e.toLowerCase().startsWith(prefix)\<close>.\<close>

definition matchesPrefix :: "string \<Rightarrow> string \<Rightarrow> bool" where
  "matchesPrefix prefix e = startsWith (toLowerCase e) prefix"

text \<open>
  The loop \<open>for (const prefix of priorityPrefixes)\<close>: the first prefix whose \<open>find\<close> gives a
  truthy match ends the loop with that match; \<open>None\<close> when the loop runs out of prefixes
  (\<open>bestEmail\<close> still \<open>null\<close>).
\<close>

fun scanPrefixes :: "string list \<Rightarrow> string list \<Rightarrow> string option" where
  "scanPrefixes [] es = None"
| "scanPrefixes (prefix # rest) es =
     (let match = find (matchesPrefix prefix) es in
      if truthy match then match else scanPrefixes rest es)"

text \<open>
  Lines 60-74: the best email. After the loop, \<open>if (!bestEmail) bestEmail = emails[0]\<close>;
  the index 0 exists because \<open>emails.length > 0\<close> on this branch.
\<close>

definition bestEmail :: "string list \<Rightarrow> string option" where
  "bestEmail es =
     (if length es > 0 then
        (let b = scanPrefixes priorityPrefixes es in
         if \<not> truthy b then (case es of e # _ \<Rightarrow> Some e | [] \<Rightarrow> None) else b)
      else None)"

text \<open>
  \<open>extractContactInfo\<close>. The first argument is what the browser collaborator did for
  \<open>page.goto(contactUrl)\<close> followed by \<open>page.extract\<close>: \<open>Inl msg\<close> when either threw
  (\<open>msg\<close> is \<open>err.message\<close> or \<open>String(err)\<close>), \<open>Inr ex\<close> when the extraction returned \<open>ex\<close>.
\<close>

definition extractContactInfo :: "string + extracted \<Rightarrow> string \<Rightarrow> string \<Rightarrow> ContactInfo" where
  "extractContactInfo page org_name contact_url =
     (case page of
        Inr ex \<Rightarrow>
          (let hasEmail = length (emails ex) > 0;
               hasForm = hasContactForm ex;
               ct = (if hasEmail \<and> hasForm then Both
                     else if hasEmail then Email
                     else if hasForm then Form
                     else NoContact)
           in \<lparr> orgName = org_name,
                contactUrl = contact_url,
                email = bestEmail (emails ex),
                formUrl = js_or (formAction ex) (if hasForm then Some contact_url else None),
                contactType = ct,
                error = None \<rparr>)
      | Inl msg \<Rightarrow>
          \<lparr> orgName = org_name,
            contactUrl = contact_url,
            email = None,
            formUrl = None,
            contactType = NoContact,
            error = Some msg \<rparr>)"

section \<open>Candidate ranking (search client, \<open>assessConfidence\<close>)\<close>

record BraveWebResult =
  title :: string
  url :: string
  description :: string








section \<open>Rate limiting (search client, \<open>rateLimit\<close>)\<close>

text \<open>The two mutable fields of a \<open>BraveSearch\<close> instance the limiter uses; times in ms.\<close>

record BraveSearch =
  lastRequestTime :: int
  minDelayMs :: int


text \<open>
  \<open>rateLimit\<close>. \<open>now\<close> is the value \<open>Date.now()\<close> returns on entry. The timer is the
  environment's: \<open>wake d\<close> is the value \<open>Date.now()\<close> returns once \<open>setTimeout(resolve, d)\<close>
  has resumed the caller, and \<open>later\<close> is the second reading of \<open>Date.now()\<close> when no timer
  was armed. The result is the new instance together with the delay handed to
  \<open>setTimeout\<close> (\<open>None\<close> when the caller is not suspended).
\<close>

definition rateLimit :: "int \<Rightarrow> (int \<Rightarrow> int) \<Rightarrow> int \<Rightarrow> BraveSearch \<Rightarrow> BraveSearch \<times> int option" where
  "rateLimit now wake later s =
     (let elapsed = now - lastRequestTime s in
      if elapsed < minDelayMs s
      then (s\<lparr>lastRequestTime := wake (minDelayMs s - elapsed)\<rparr>, Some (minDelayMs s - elapsed))
      else (s\<lparr>lastRequestTime := later\<rparr>, None))"

section \<open>Contact-page search (search client, \<open>findContactPage\<close>)\<close>

record ContactPageResult =
  orgName_cp :: string
  websiteUrl :: "string option"
  contactUrl_cp :: "string option"
  contactTitle :: "string option"
  error_cp :: "string option"

text \<open>
  What the search backend did for one request: \<open>Threw msg\<close> when \<open>fetch\<close>, \<open>response.text()\<close>
  or \<open>response.json()\<close> threw, \<open>NotOk code text\<close> for a response that is not \<open>ok\<close>, and
  \<open>OkJson web\<close> for a parsed body, \<open>web\<close> being \<open>data.web?.results\<close> (\<open>None\<close> when absent).
\<close>

datatype fetch_outcome = Threw string | NotOk nat string | OkJson "BraveWebResult list option"

text \<open>Decimal digits of a number, for the template string of the API error.\<close>

fun show_nat :: "nat \<Rightarrow> string" where
  "show_nat n =
     (if n < 10 then [char_of (48 + n)]
      else show_nat (n div 10) @ [char_of (48 + n mod 10)])"

definition contactKeywords :: "string list" where
  "contactKeywords = [''contact'', ''about'', ''help'', ''support'', ''reach'', ''get-in-touch'']"

definition isContactPage :: "BraveWebResult \<Rightarrow> bool" where
  "isContactPage result =
     (let urlLower = toLowerCase (url result);
          titleLower = toLowerCase (title result)
      in list_ex (\<lambda>kw. includes_str urlLower kw \<or> includes_str titleLower kw) contactKeywords)"

text \<open>
  The loop \<open>for (const result of results)\<close>. \<open>origin u\<close> stands for \<open>new URL(u).origin\<close>:
  \<open>Inr og\<close> is the origin, \<open>Inl msg\<close> the message of the exception the constructor throws.
  The loop leaves at the first contact page (\<open>bestResult\<close> is still \<open>null\<close> whenever the
  test \<open>isContactPage && !bestResult\<close> is reached); \<open>Inl msg\<close> is an exception leaving it.
\<close>

fun scanResults ::
  "(string \<Rightarrow> string + string) \<Rightarrow> BraveWebResult list \<Rightarrow> string option \<Rightarrow>
   string + (BraveWebResult option \<times> string option)" where
  "scanResults origin [] site = Inr (None, site)"
| "scanResults origin (r # rs) site =
     (case (if \<not> truthy site
            then (case origin (url r) of Inl msg \<Rightarrow> Inl msg | Inr og \<Rightarrow> Inr (Some og))
            else Inr site) of
        Inl msg \<Rightarrow> Inl msg
      | Inr site' \<Rightarrow>
          if isContactPage r then Inr (Some r, site') else scanResults origin rs site')"

definition failedSearch :: "string \<Rightarrow> string \<Rightarrow> ContactPageResult" where
  "failedSearch org_name msg =
     \<lparr> orgName_cp = org_name, websiteUrl = None, contactUrl_cp = None,
       contactTitle = None, error_cp = Some msg \<rparr>"

text \<open>
  \<open>findContactPage\<close>, given the backend's answer to its request. The wait in \<open>rateLimit\<close>
  before the request changes no value here and is modelled on its own above.
\<close>

definition findContactPage ::
  "(string \<Rightarrow> string + string) \<Rightarrow> fetch_outcome \<Rightarrow> string \<Rightarrow> ContactPageResult" where
  "findContactPage origin response org_name =
     (case response of
        Threw msg \<Rightarrow> failedSearch org_name msg
      | NotOk code txt \<Rightarrow>
          failedSearch org_name (''API error '' @ show_nat code @ '': '' @ txt)
      | OkJson web \<Rightarrow>
          (let results = (case web of None \<Rightarrow> [] | Some rs \<Rightarrow> rs) in
           case results of
             [] \<Rightarrow> failedSearch org_name ''No results found''
           | first # _ \<Rightarrow>
               (case scanResults origin results None of
                  Inl msg \<Rightarrow> failedSearch org_name msg
                | Inr (found, site) \<Rightarrow>
                    (let bestResult = (case found of None \<Rightarrow> first | Some r \<Rightarrow> r) in
                     \<lparr> orgName_cp = org_name, websiteUrl = site,
                       contactUrl_cp = Some (url bestResult),
                       contactTitle = Some (title bestResult),
                       error_cp = None \<rparr>))))"

section \<open>The state store (db)\<close>

datatype status = Pending | Success | Failed | Manual

datatype attempt_type = Search | ContactFind | EmailAttempt | FormAttempt

text \<open>
  A row of \<open>organizations\<close>. \<open>contact_type\<close> is \<open>NULL\<close> until the first update; \<open>attempts\<close>
  only ever grows from 0 by one, far from the bound of SQLite's 64-bit integers, and is
  a natural number; a timestamp is the text \<open>CURRENT_TIMESTAMP\<close> gave.
\<close>

record Organization =
  id_org :: nat
  name :: string
  website :: "string option"
  contact_type :: "contact_type option"
  contact_value :: "string option"
  status :: status
  error_message :: "string option"
  attempts :: nat
  last_attempt_at :: "string option"
  created_at :: string

text \<open>
  The \<open>details\<close> column holds \<open>JSON.stringify\<close> of an object; the model keeps the object:
  its keys in order, each with a string or \<open>null\<close>. A key whose value is \<open>undefined\<close> is
  dropped by \<open>JSON.stringify\<close>, so it is dropped here.
\<close>

datatype json_value = JString string | JNull

type_synonym json_object = "(string \<times> json_value) list"

definition optional_field :: "string \<Rightarrow> string option \<Rightarrow> json_object" where
  "optional_field k v = (case v of None \<Rightarrow> [] | Some s \<Rightarrow> [(k, JString s)])"

definition nullable :: "string option \<Rightarrow> json_value" where
  "nullable v = (case v of None \<Rightarrow> JNull | Some s \<Rightarrow> JString s)"

definition contact_type_text :: "contact_type \<Rightarrow> string" where
  "contact_type_text t =
     (case t of Email \<Rightarrow> ''email'' | Form \<Rightarrow> ''form'' | Both \<Rightarrow> ''both'' | NoContact \<Rightarrow> ''none'')"

record Attempt =
  id_att :: nat
  org_id :: nat
  attempt_type :: attempt_type
  success :: bool
  details :: "json_object option"
  screenshot_path :: "string option"
  created_at_att :: string

record database =
  organizations :: "Organization list"
  attempts_table :: "Attempt list"

definition empty_db :: database where
  "empty_db = \<lparr> organizations = [], attempts_table = [] \<rparr>"

text \<open>The rowid SQLite gives a new row of an \<open>INTEGER PRIMARY KEY\<close> table: largest plus one.\<close>

definition next_rowid :: "nat list \<Rightarrow> nat" where
  "next_rowid ids = Suc (fold max ids 0)"

definition getOrg :: "string \<Rightarrow> database \<Rightarrow> Organization option" where
  "getOrg nm d = find (\<lambda>g. name g = nm) (organizations d)"

text \<open>
  \<open>INSERT OR IGNORE INTO organizations (name) VALUES (?)\<close>: nothing changes when the name
  is taken (\<open>UNIQUE\<close>); otherwise a row with the column defaults. The result says whether
  a row was inserted (\<open>result.changes > 0\<close>).
\<close>

definition insert_or_ignore :: "string \<Rightarrow> string \<Rightarrow> database \<Rightarrow> bool \<times> database" where
  "insert_or_ignore now nm d =
     (case getOrg nm d of
        Some _ \<Rightarrow> (False, d)
      | None \<Rightarrow>
          (True, d\<lparr>organizations := organizations d @
             [\<lparr> id_org = next_rowid (map id_org (organizations d)), name = nm,
                website = None, contact_type = None, contact_value = None,
                status = Pending, error_message = None, attempts = 0,
                last_attempt_at = None, created_at = now \<rparr>]\<rparr>))"

text \<open>The body of the transaction \<open>insertMany\<close>, with \<open>count\<close> as an accumulator.\<close>

fun insertMany :: "string \<Rightarrow> string list \<Rightarrow> nat \<Rightarrow> database \<Rightarrow> nat \<times> database" where
  "insertMany now [] count d = (count, d)"
| "insertMany now (nm # nms) count d =
     (case insert_or_ignore now nm d of
        (changed, d') \<Rightarrow> insertMany now nms (if changed then count + 1 else count) d')"

definition importOrgs :: "string \<Rightarrow> string list \<Rightarrow> database \<Rightarrow> nat \<times> database" where
  "importOrgs now names d = insertMany now names 0 d"

text \<open>\<open>ORDER BY name\<close> compares the names code unit by code unit.\<close>

definition getOrgsByStatus :: "status \<Rightarrow> database \<Rightarrow> Organization list" where
  "getOrgsByStatus st d = sort_key name (filter (\<lambda>g. status g = st) (organizations d))"

text \<open>The \<open>data\<close> argument of \<open>updateOrgContact\<close>; an omitted optional field is \<open>None\<close>.\<close>

record update_data =
  website_new :: "string option"
  contact_type_new :: "contact_type option"
  contact_value_new :: "string option"
  status_new :: status
  error_message_new :: "string option"

text \<open>\<open>updateOrgContact\<close>; \<open>now\<close> is the value of \<open>CURRENT_TIMESTAMP\<close> in the statement.\<close>

definition updateOrgContact :: "string \<Rightarrow> string \<Rightarrow> update_data \<Rightarrow> database \<Rightarrow> database" where
  "updateOrgContact now nm data d =
     d\<lparr>organizations :=
         map (\<lambda>g. if name g = nm
                  then g\<lparr> website := (case website_new data of Some w \<Rightarrow> Some w | None \<Rightarrow> website g),
                          contact_type := contact_type_new data,
                          contact_value := contact_value_new data,
                          status := status_new data,
                          error_message := error_message_new data,
                          attempts := attempts g + 1,
                          last_attempt_at := Some now \<rparr>
                  else g)
             (organizations d)\<rparr>"

definition resetOrg :: "string \<Rightarrow> database \<Rightarrow> database" where
  "resetOrg nm d =
     d\<lparr>organizations :=
         map (\<lambda>g. if name g = nm then g\<lparr> status := Pending, error_message := None \<rparr> else g)
             (organizations d)\<rparr>"

definition resetAllOrgs :: "database \<Rightarrow> database" where
  "resetAllOrgs d =
     d\<lparr>organizations :=
         map (\<lambda>g. g\<lparr> status := Pending, error_message := None \<rparr>) (organizations d)\<rparr>"

text \<open>
  \<open>logAttempt\<close>: nothing for an unknown organization, otherwise one new row of
  \<open>attempts\<close>. No caller passes a screenshot path.
\<close>

definition logAttempt ::
  "string \<Rightarrow> string \<Rightarrow> attempt_type \<Rightarrow> bool \<Rightarrow> json_object option \<Rightarrow> database \<Rightarrow> database" where
  "logAttempt now org_name ty ok det d =
     (case getOrg org_name d of
        None \<Rightarrow> d
      | Some org \<Rightarrow>
          d\<lparr>attempts_table := attempts_table d @
             [\<lparr> id_att = next_rowid (map id_att (attempts_table d)), org_id = id_org org,
                attempt_type = ty, success = ok, details = det,
                screenshot_path = None, created_at_att = now \<rparr>]\<rparr>)"

section \<open>The resolution pipeline (the \<open>batch\<close> command)\<close>

text \<open>
  The collaborators of one pass. \<open>search_response nm\<close> is the backend's answer to the
  contact-page request for the organization \<open>nm\<close>; \<open>url_origin\<close> is \<open>new URL(u).origin\<close>;
  \<open>page nm u\<close> is what the browser did when asked to open \<open>u\<close> for \<open>nm\<close> and extract;
  \<open>timestamp k\<close> is \<open>CURRENT_TIMESTAMP\<close> as read by the \<open>k\<close>-th write of the pass.
\<close>

record collaborators =
  search_response :: "string \<Rightarrow> fetch_outcome"
  url_origin :: "string \<Rightarrow> string + string"
  page :: "string \<Rightarrow> string \<Rightarrow> string + extracted"
  timestamp :: "nat \<Rightarrow> string"

text \<open>
  The state a pass works on: the store, the log of the extraction calls made to the
  browser (organization and URL, oldest first), and the number of writes made so far.
\<close>

record world =
  db :: database
  visited :: "(string \<times> string) list"
  writes :: nat

definition do_update :: "collaborators \<Rightarrow> string \<Rightarrow> update_data \<Rightarrow> world \<Rightarrow> world" where
  "do_update env nm data w =
     w\<lparr> db := updateOrgContact (timestamp env (writes w)) nm data (db w),
        writes := writes w + 1 \<rparr>"

definition do_log ::
  "collaborators \<Rightarrow> string \<Rightarrow> attempt_type \<Rightarrow> bool \<Rightarrow> json_object \<Rightarrow> world \<Rightarrow> world" where
  "do_log env nm ty ok det w =
     w\<lparr> db := logAttempt (timestamp env (writes w)) nm ty ok (Some det) (db w),
        writes := writes w + 1 \<rparr>"

text \<open>
  The body of the loop \<open>for (const org of pendingOrgs)\<close>. \<open>contactValue\<close> is
  \<open>contactInfo.email || contactInfo.formUrl\<close>; the \<open>website\<close> passed to the store is
  \<open>searchResult.websiteUrl ?? undefined\<close>.
\<close>

definition processOrg :: "collaborators \<Rightarrow> Organization \<Rightarrow> world \<Rightarrow> world" where
  "processOrg env org w =
     (let searchResult =
            findContactPage (url_origin env) (search_response env (name org)) (name org)
      in if \<not> truthy (contactUrl_cp searchResult) then
           do_log env (name org) Search False
               (optional_field ''error'' (error_cp searchResult))
             (do_update env (name org)
                \<lparr> website_new = None, contact_type_new = Some NoContact,
                  contact_value_new = None, status_new = Failed,
                  error_message_new = error_cp searchResult \<rparr> w)
         else
           (case contactUrl_cp searchResult of
              None \<Rightarrow> w
            | Some contact_url \<Rightarrow>
                (let w1 = do_log env (name org) Search True [(''url'', JString contact_url)] w;
                     contactInfo =
                       extractContactInfo (page env (name org) contact_url) (name org) contact_url;
                     w2 = w1\<lparr> visited := visited w1 @ [(name org, contact_url)] \<rparr>
                 in if truthy (error contactInfo) then
                      do_log env (name org) ContactFind False
                          (optional_field ''error'' (error contactInfo))
                        (do_update env (name org)
                           \<lparr> website_new = websiteUrl searchResult,
                             contact_type_new = Some NoContact,
                             contact_value_new = None, status_new = Failed,
                             error_message_new = error contactInfo \<rparr> w2)
                    else
                      (let contactValue = js_or (email contactInfo) (formUrl contactInfo);
                           st = (if contactType contactInfo = NoContact then Manual else Success)
                       in do_log env (name org) ContactFind (st = Success)
                            [(''type'', JString (contact_type_text (contactType contactInfo))),
                             (''email'', nullable (email contactInfo)),
                             (''formUrl'', nullable (formUrl contactInfo))]
                            (do_update env (name org)
                               \<lparr> website_new = websiteUrl searchResult,
                                 contact_type_new = Some (contactType contactInfo),
                                 contact_value_new = contactValue, status_new = st,
                                 error_message_new = None \<rparr> w2)))))"

fun batch_loop :: "collaborators \<Rightarrow> Organization list \<Rightarrow> world \<Rightarrow> world" where
  "batch_loop env [] w = w"
| "batch_loop env (org # orgs) w = batch_loop env orgs (processOrg env org w)"

text \<open>
  The \<open>batch\<close> action once both API keys are present: the pending rows are read once,
  before the loop; with none pending the command returns at once.
\<close>

definition batch :: "collaborators \<Rightarrow> world \<Rightarrow> world" where
  "batch env w =
     (let pendingOrgs = getOrgsByStatus Pending (db w) in
      if length pendingOrgs = 0 then w else batch_loop env pendingOrgs w)"

section \<open>A store with one imported organization\<close>

text \<open>
  The scenario of the end-to-end properties: \<open>Acme Org\<close> imported into an empty store,
  and collaborators that give one fixed search response and one fixed browser outcome.
\<close>

definition acme_world :: world where
  "acme_world =
     \<lparr> db = snd (importOrgs ''2025-01-01 00:00:00'' [''Acme Org''] empty_db),
       visited = [], writes = 0 \<rparr>"

definition acme_row :: Organization where
  "acme_row =
     \<lparr> id_org = 1, name = ''Acme Org'', website = None, contact_type = None,
       contact_value = None, status = Pending, error_message = None, attempts = 0,
       last_attempt_at = None, created_at = ''2025-01-01 00:00:00'' \<rparr>"

definition acme_env :: "fetch_outcome \<Rightarrow> string + extracted \<Rightarrow> collaborators" where
  "acme_env response browsed =
     \<lparr> search_response = (\<lambda>_. response),
       url_origin = (\<lambda>_. Inr ''https://acme.org''),
       page = (\<lambda>_ _. browsed),
       timestamp = (\<lambda>_. ''2025-01-02 00:00:00'') \<rparr>"

definition acme_found :: fetch_outcome where
  "acme_found =
     OkJson (Some [\<lparr> title = ''Contact Acme'', url = ''https://acme.org/contact'',
                     description = [] \<rparr>])"

text \<open>
  The same organization after an earlier successful pass: a cached website and email.
\<close>

definition acme_cached :: world where
  "acme_cached =
     \<lparr> db = \<lparr> organizations =
                [acme_row\<lparr> website := Some ''https://acme.org'', contact_type := Some Email,
                           contact_value := Some ''info@acme.org'', status := Success,
                           attempts := 1, last_attempt_at := Some ''2025-01-01 12:00:00'' \<rparr>],
              attempts_table = [] \<rparr>,
       visited = [], writes = 0 \<rparr>"

section \<open>Observations used in the statements\<close>

text \<open>The stage-A result of a pass for the organization named \<open>nm\<close>.\<close>

abbreviation searchResultFor :: "collaborators \<Rightarrow> string \<Rightarrow> ContactPageResult" where
  "searchResultFor env nm \<equiv> findContactPage (url_origin env) (search_response env nm) nm"

text \<open>
  The rows of \<open>attempts\<close> that belong to the organization with id \<open>i\<close>, oldest first,
  and the extraction calls a pass made for the organization named \<open>nm\<close>.
\<close>

definition attempts_for :: "nat \<Rightarrow> database \<Rightarrow> Attempt list" where
  "attempts_for i d = filter (\<lambda>a. org_id a = i) (attempts_table d)"

definition visits_of :: "string \<Rightarrow> world \<Rightarrow> (string \<times> string) list" where
  "visits_of nm w = filter (\<lambda>v. fst v = nm) (visited w)"


section \<open>Properties of the channel selector\<close>





text \<open>
  C4. The contact type of a completed extraction depends only on whether the email list
  is non-empty and on the form flag: \<open>both\<close> iff an email is present and the flag is true,
  \<open>email\<close> iff an email is present and the flag is false, \<open>form\<close> iff the flag is true
  and no email is present, \<open>none\<close> iff neither.
\<close>

theorem contactType_table:
  "(contactType (extractContactInfo (Inr ex) n u) = Both
      \<longleftrightarrow> emails ex \<noteq> [] \<and> hasContactForm ex) \<and>
   (contactType (extractContactInfo (Inr ex) n u) = Email
      \<longleftrightarrow> emails ex \<noteq> [] \<and> \<not> hasContactForm ex) \<and>
   (contactType (extractContactInfo (Inr ex) n u) = Form
      \<longleftrightarrow> emails ex = [] \<and> hasContactForm ex) \<and>
   (contactType (extractContactInfo (Inr ex) n u) = NoContact
      \<longleftrightarrow> emails ex = [] \<and> \<not> hasContactForm ex)"
  by (simp add: extractContactInfo_def Let_def)



section \<open>The store and the pipeline: frame lemmas\<close>



lemma names_updateOrgContact:
  "map name (organizations (updateOrgContact now nm data d)) = map name (organizations d)"
  by (simp add: updateOrgContact_def comp_def cong: map_cong)

lemma ids_updateOrgContact:
  "map id_org (organizations (updateOrgContact now nm data d)) = map id_org (organizations d)"
  by (simp add: updateOrgContact_def comp_def cong: map_cong)

lemma attempts_updateOrgContact:
  "attempts_table (updateOrgContact now nm data d) = attempts_table d"
  by (simp add: updateOrgContact_def)

lemma organizations_logAttempt:
  "organizations (logAttempt now nm ty ok det d) = organizations d"
  by (simp add: logAttempt_def split: option.splits)

lemma getOrg_logAttempt:
  "getOrg x (logAttempt now nm ty ok det d) = getOrg x d"
  by (simp add: getOrg_def organizations_logAttempt)

lemma find_map_update:
  "find (\<lambda>g. name g = x) (map (\<lambda>g. if name g = nm then f g else g) gs) =
     (if x = nm then map_option f (find (\<lambda>g. name g = x) gs) else find (\<lambda>g. name g = x) gs)"
  if "\<And>g. name (f g) = name g"
  using that by (induction gs) auto

lemma getOrg_updateOrgContact:
  "getOrg x (updateOrgContact now nm data d) =
     (if x = nm
      then map_option
             (\<lambda>g. g\<lparr> website := (case website_new data of Some w \<Rightarrow> Some w | None \<Rightarrow> website g),
                     contact_type := contact_type_new data,
                     contact_value := contact_value_new data,
                     status := status_new data,
                     error_message := error_message_new data,
                     attempts := attempts g + 1,
                     last_attempt_at := Some now \<rparr>)
             (getOrg x d)
      else getOrg x d)"
  unfolding getOrg_def updateOrgContact_def
  by (simp add: find_map_update)

lemma getOrg_name: "getOrg x d = Some g \<Longrightarrow> name g = x"
  by (auto simp: getOrg_def find_Some_iff)

lemma getOrg_member: "getOrg x d = Some g \<Longrightarrow> g \<in> set (organizations d)"
  by (auto simp: getOrg_def find_Some_iff)

lemma getOrg_distinct:
  "distinct (map name gs) \<Longrightarrow> g \<in> set gs \<Longrightarrow> find (\<lambda>h. name h = name g) gs = Some g"
  by (induction gs) (auto simp: rev_image_eqI)


lemma attempts_logAttempt:
  "attempts_table (logAttempt now nm ty ok det d) =
     attempts_table d @
       (case getOrg nm d of
          None \<Rightarrow> []
        | Some g \<Rightarrow>
            [\<lparr> id_att = next_rowid (map id_att (attempts_table d)), org_id = id_org g,
               attempt_type = ty, success = ok, details = det,
               screenshot_path = None, created_at_att = now \<rparr>])"
  by (simp add: logAttempt_def split: option.splits)

lemma getOrg_do_log: "getOrg x (db (do_log env nm ty ok det w)) = getOrg x (db w)"
  by (simp add: do_log_def getOrg_logAttempt)

lemma visited_do_log: "visited (do_log env nm ty ok det w) = visited w"
  by (simp add: do_log_def)

lemma visited_do_update: "visited (do_update env nm data w) = visited w"
  by (simp add: do_update_def)

lemma getOrg_do_update_other:
  "x \<noteq> nm \<Longrightarrow> getOrg x (db (do_update env nm data w)) = getOrg x (db w)"
  by (simp add: do_update_def getOrg_updateOrgContact)

lemma names_do_update:
  "map name (organizations (db (do_update env nm data w))) = map name (organizations (db w))"
  by (simp add: do_update_def names_updateOrgContact)

lemma ids_do_update:
  "map id_org (organizations (db (do_update env nm data w))) = map id_org (organizations (db w))"
  by (simp add: do_update_def ids_updateOrgContact)

lemma organizations_do_log:
  "organizations (db (do_log env nm ty ok det w)) = organizations (db w)"
  by (simp add: do_log_def organizations_logAttempt)

lemma attempts_for_do_update:
  "attempts_for i (db (do_update env nm data w)) = attempts_for i (db w)"
  by (simp add: do_update_def attempts_for_def attempts_updateOrgContact)

lemma attempts_for_do_log_other:
  "getOrg nm (db w) = Some h \<Longrightarrow> id_org h \<noteq> i \<Longrightarrow>
   attempts_for i (db (do_log env nm ty ok det w)) = attempts_for i (db w)"
  by (simp add: do_log_def attempts_for_def attempts_logAttempt)

lemma attempts_for_do_log_missing:
  "getOrg nm (db w) = None \<Longrightarrow>
   attempts_for i (db (do_log env nm ty ok det w)) = attempts_for i (db w)"
  by (simp add: do_log_def attempts_for_def attempts_logAttempt)

lemma attempts_for_do_log_same:
  "getOrg nm (db w) = Some h \<Longrightarrow>
   attempts_for (id_org h) (db (do_log env nm ty ok det w)) =
     attempts_for (id_org h) (db w) @
       [\<lparr> id_att = next_rowid (map id_att (attempts_table (db w))), org_id = id_org h,
          attempt_type = ty, success = ok, details = Some det,
          screenshot_path = None, created_at_att = timestamp env (writes w) \<rparr>]"
  by (simp add: do_log_def attempts_for_def attempts_logAttempt)

lemma getOrg_do_update_same:
  "getOrg nm (db w) = Some h \<Longrightarrow>
   getOrg nm (db (do_update env nm data w)) =
     Some (h\<lparr> website := (case website_new data of Some s \<Rightarrow> Some s | None \<Rightarrow> website h),
              contact_type := contact_type_new data,
              contact_value := contact_value_new data,
              status := status_new data,
              error_message := error_message_new data,
              attempts := attempts h + 1,
              last_attempt_at := Some (timestamp env (writes w)) \<rparr>)"
  by (simp add: do_update_def getOrg_updateOrgContact)

lemma distinct_ids_differ:
  assumes "distinct (map id_org (organizations d))"
    and "getOrg x d = Some gx" and "getOrg y d = Some gy" and "x \<noteq> y"
  shows "id_org gx \<noteq> id_org gy"
proof -
  have "gx \<in> set (organizations d)" "gy \<in> set (organizations d)"
    using assms getOrg_member by blast+
  moreover have "gx \<noteq> gy" using assms getOrg_name by blast
  ultimately show ?thesis
    using assms(1) by (meson distinct_map inj_on_def)
qed


lemma oid_do_update:
  "map_option id_org (getOrg x (db (do_update env nm data w))) = map_option id_org (getOrg x (db w))"
  by (cases "getOrg x (db w)") (auto simp: do_update_def getOrg_updateOrgContact)

lemma oid_do_log:
  "map_option id_org (getOrg x (db (do_log env nm ty ok det w))) = map_option id_org (getOrg x (db w))"
  by (simp add: getOrg_do_log)

lemma attempts_for_do_log_frame:
  "map_option id_org (getOrg nm (db w)) \<noteq> Some i \<Longrightarrow>
   attempts_for i (db (do_log env nm ty ok det w)) = attempts_for i (db w)"
  by (cases "getOrg nm (db w)")
     (simp_all add: attempts_for_do_log_missing attempts_for_do_log_other)

lemma ids_processOrg:
  "map id_org (organizations (db (processOrg env org w))) = map id_org (organizations (db w))"
  by (simp add: processOrg_def Let_def organizations_do_log ids_do_update
           split: option.splits)

lemma names_processOrg:
  "map name (organizations (db (processOrg env org w))) = map name (organizations (db w))"
  by (simp add: processOrg_def Let_def organizations_do_log names_do_update
           split: option.splits)

lemma getOrg_processOrg_other:
  "x \<noteq> name org \<Longrightarrow> getOrg x (db (processOrg env org w)) = getOrg x (db w)"
  by (simp add: processOrg_def Let_def getOrg_do_log getOrg_do_update_other
           split: option.splits)

lemma visits_processOrg_other:
  "x \<noteq> name org \<Longrightarrow> visits_of x (processOrg env org w) = visits_of x w"
  by (simp add: processOrg_def Let_def visits_of_def visited_do_log visited_do_update
           split: option.splits)

lemma attempts_processOrg_other:
  assumes "map_option id_org (getOrg (name org) (db w)) \<noteq> Some i"
  shows "attempts_for i (db (processOrg env org w)) = attempts_for i (db w)"
  using assms
  by (simp add: processOrg_def Let_def attempts_for_do_log_frame attempts_for_do_update
        oid_do_update oid_do_log
        split: option.splits)


lemma batch_loop_append:
  "batch_loop env (xs @ ys) w = batch_loop env ys (batch_loop env xs w)"
  by (induction xs arbitrary: w) simp_all

lemma ids_batch_loop:
  "map id_org (organizations (db (batch_loop env gs w))) = map id_org (organizations (db w))"
  by (induction gs arbitrary: w) (simp_all add: ids_processOrg)

lemma batch_loop_other:
  assumes "x \<notin> name ` set gs"
    and "getOrg x (db w) = Some gx"
    and "distinct (map id_org (organizations (db w)))"
  shows "getOrg x (db (batch_loop env gs w)) = Some gx \<and>
         attempts_for (id_org gx) (db (batch_loop env gs w)) = attempts_for (id_org gx) (db w) \<and>
         visits_of x (batch_loop env gs w) = visits_of x w"
  using assms
proof (induction gs arbitrary: w)
  case Nil
  then show ?case by simp
next
  case (Cons g gs)
  let ?w = "processOrg env g w"
  have ne: "x \<noteq> name g" using Cons.prems(1) by auto
  have g1: "getOrg x (db ?w) = Some gx"
    using ne Cons.prems(2) by (simp add: getOrg_processOrg_other)
  have d1: "distinct (map id_org (organizations (db ?w)))"
    using Cons.prems(3) by (simp add: ids_processOrg)
  have "map_option id_org (getOrg (name g) (db w)) \<noteq> Some (id_org gx)"
  proof (cases "getOrg (name g) (db w)")
    case None
    then show ?thesis by simp
  next
    case (Some h)
    then have "id_org h \<noteq> id_org gx"
      using distinct_ids_differ [OF Cons.prems(3) Some Cons.prems(2)] ne by blast
    then show ?thesis using Some by simp
  qed
  then have a1: "attempts_for (id_org gx) (db ?w) = attempts_for (id_org gx) (db w)"
    by (rule attempts_processOrg_other)
  have v1: "visits_of x ?w = visits_of x w"
    using ne by (rule visits_processOrg_other)
  have "x \<notin> name ` set gs" using Cons.prems(1) by auto
  from Cons.IH [OF this g1 d1] a1 v1 show ?case by simp
qed

lemma oid_processOrg:
  "map_option id_org (getOrg x (db (processOrg env org w))) = map_option id_org (getOrg x (db w))"
  by (simp add: processOrg_def Let_def oid_do_update oid_do_log split: option.splits)

lemma batch_focus:
  assumes "distinct (map name gs)"
    and "g \<in> set gs"
    and "getOrg (name g) (db w) = Some h"
    and "distinct (map id_org (organizations (db w)))"
  shows "\<exists>w1. getOrg (name g) (db w1) = Some h \<and>
              attempts_for (id_org h) (db w1) = attempts_for (id_org h) (db w) \<and>
              visits_of (name g) w1 = visits_of (name g) w \<and>
              getOrg (name g) (db (batch_loop env gs w)) =
                getOrg (name g) (db (processOrg env g w1)) \<and>
              attempts_for (id_org h) (db (batch_loop env gs w)) =
                attempts_for (id_org h) (db (processOrg env g w1)) \<and>
              visits_of (name g) (batch_loop env gs w) = visits_of (name g) (processOrg env g w1)"
proof -
  obtain pre post where gs: "gs = pre @ g # post"
    using assms(2) by (auto dest: split_list)
  have npre: "name g \<notin> name ` set pre" and npost: "name g \<notin> name ` set post"
    using assms(1) unfolding gs by auto
  let ?w1 = "batch_loop env pre w"
  let ?w2 = "processOrg env g ?w1"
  have p1: "getOrg (name g) (db ?w1) = Some h \<and>
         attempts_for (id_org h) (db ?w1) = attempts_for (id_org h) (db w) \<and>
         visits_of (name g) ?w1 = visits_of (name g) w"
    by (rule batch_loop_other [OF npre assms(3) assms(4)])
  have d2: "distinct (map id_org (organizations (db ?w2)))"
    using assms(4) by (simp add: ids_processOrg ids_batch_loop)
  have fin: "batch_loop env gs w = batch_loop env post ?w2"
    unfolding gs by (simp add: batch_loop_append)
  have "map_option id_org (getOrg (name g) (db ?w2)) = Some (id_org h)"
    using p1 by (simp add: oid_processOrg)
  then obtain h2 where h2: "getOrg (name g) (db ?w2) = Some h2" and i2: "id_org h2 = id_org h"
    by auto
  have p3: "getOrg (name g) (db (batch_loop env post ?w2)) = Some h2 \<and>
       attempts_for (id_org h2) (db (batch_loop env post ?w2)) = attempts_for (id_org h2) (db ?w2) \<and>
       visits_of (name g) (batch_loop env post ?w2) = visits_of (name g) ?w2"
    by (rule batch_loop_other [OF npost h2 d2])
  show ?thesis
    using p1 p3 h2 i2 fin by (intro exI [of _ ?w1]) simp
qed

lemma pending_listed:
  assumes "distinct (map name (organizations d))"
    and "g \<in> set (organizations d)" and "status g = Pending"
  shows "g \<in> set (getOrgsByStatus Pending d)"
    and "distinct (map name (getOrgsByStatus Pending d))"
    and "getOrg (name g) d = Some g"
proof -
  show "g \<in> set (getOrgsByStatus Pending d)"
    using assms by (simp add: getOrgsByStatus_def)
  have "distinct (map name (filter (\<lambda>g. status g = Pending) (organizations d)))"
    using assms(1) by (rule distinct_map_filter)
  then show "distinct (map name (getOrgsByStatus Pending d))"
    by (simp add: getOrgsByStatus_def distinct_map)
  show "getOrg (name g) d = Some g"
    unfolding getOrg_def using assms(1,2) by (rule getOrg_distinct)
qed

lemma batch_focus_pending:
  assumes "distinct (map name (organizations (db w)))"
    and "distinct (map id_org (organizations (db w)))"
    and "g \<in> set (organizations (db w))" and "status g = Pending"
  shows "\<exists>w1. getOrg (name g) (db w1) = Some g \<and>
              attempts_for (id_org g) (db w1) = attempts_for (id_org g) (db w) \<and>
              visits_of (name g) w1 = visits_of (name g) w \<and>
              getOrg (name g) (db (batch env w)) =
                getOrg (name g) (db (processOrg env g w1)) \<and>
              attempts_for (id_org g) (db (batch env w)) =
                attempts_for (id_org g) (db (processOrg env g w1)) \<and>
              visits_of (name g) (batch env w) = visits_of (name g) (processOrg env g w1)"
proof -
  note pl = pending_listed [OF assms(1,3,4)]
  have ne: "getOrgsByStatus Pending (db w) \<noteq> []" using pl(1) by auto
  then have b: "batch env w = batch_loop env (getOrgsByStatus Pending (db w)) w"
    by (simp add: batch_def Let_def)
  show ?thesis
    unfolding b by (rule batch_focus [OF pl(2) pl(1) pl(3) assms(2)])
qed


lemma findContactPage_error:
  "error_cp (findContactPage origin response nm) \<noteq> None \<Longrightarrow>
   contactUrl_cp (findContactPage origin response nm) = None"
  by (auto simp: findContactPage_def failedSearch_def Let_def truthy_def
           split: fetch_outcome.splits list.splits sum.splits option.splits prod.splits)

lemma scanResults_site:
  "scanResults origin rs site = Inr (found, site') \<Longrightarrow> site \<noteq> None \<or> rs \<noteq> [] \<Longrightarrow>
   site' \<noteq> None"
proof (induction rs arbitrary: site)
  case Nil
  then show ?case by simp
next
  case (Cons r rs)
  show ?case
  proof (cases "truthy site")
    case True
    then have s: "site \<noteq> None" by (cases site) (simp_all add: truthy_def)
    show ?thesis
    proof (cases "isContactPage r")
      case True
      with Cons.prems \<open>truthy site\<close> s show ?thesis by simp
    next
      case False
      with Cons.prems \<open>truthy site\<close> have "scanResults origin rs site = Inr (found, site')"
        by simp
      then show ?thesis using Cons.IH s by blast
    qed
  next
    case False
    then obtain og where og: "origin (url r) = Inr og"
      using Cons.prems(1) by (cases "origin (url r)") simp_all
    show ?thesis
    proof (cases "isContactPage r")
      case True
      with Cons.prems False og show ?thesis by auto
    next
      case nc: False
      with Cons.prems False og have "scanResults origin rs (Some og) = Inr (found, site')"
        by simp
      then show ?thesis using Cons.IH by blast
    qed
  qed
qed

lemma findContactPage_website:
  assumes "error_cp (findContactPage origin response nm) = None"
  shows "websiteUrl (findContactPage origin response nm) \<noteq> None"
proof (cases response)
  case (Threw x1)
  then show ?thesis using assms by (simp add: findContactPage_def failedSearch_def)
next
  case (NotOk x21 x22)
  then show ?thesis using assms by (simp add: findContactPage_def failedSearch_def)
next
  case (OkJson web)
  define results where "results = (case web of None \<Rightarrow> [] | Some rs \<Rightarrow> rs)"
  show ?thesis
  proof (cases results)
    case Nil
    then show ?thesis
      using assms OkJson by (simp add: findContactPage_def failedSearch_def results_def)
  next
    case (Cons first rest)
    show ?thesis
    proof (cases "scanResults origin results None")
      case (Inl msg)
      then show ?thesis
        using assms OkJson Cons
        by (simp add: findContactPage_def failedSearch_def results_def)
    next
      case (Inr fs)
      obtain found site where fs: "fs = (found, site)" by (cases fs)
      have "site \<noteq> None"
        using scanResults_site [of origin results None found site] Inr fs Cons by simp
      then show ?thesis
        using OkJson Cons Inr fs
        by (simp add: findContactPage_def results_def Let_def)
    qed
  qed
qed

lemma processOrg_search_failed:
  assumes "\<not> truthy (contactUrl_cp (searchResultFor env (name org)))"
  shows "processOrg env org w =
     do_log env (name org) Search False
         (optional_field ''error'' (error_cp (searchResultFor env (name org))))
       (do_update env (name org)
          \<lparr> website_new = None, contact_type_new = Some NoContact,
            contact_value_new = None, status_new = Failed,
            error_message_new = error_cp (searchResultFor env (name org)) \<rparr> w)"
  using assms by (simp add: processOrg_def Let_def)

lemma findContactPage_found:
  "contactUrl_cp (findContactPage origin response nm) = Some u \<Longrightarrow>
   error_cp (findContactPage origin response nm) = None \<and>
   websiteUrl (findContactPage origin response nm) \<noteq> None"
proof -
  assume a: "contactUrl_cp (findContactPage origin response nm) = Some u"
  have e: "error_cp (findContactPage origin response nm) = None"
    using findContactPage_error [of origin response nm] a
    by (cases "error_cp (findContactPage origin response nm)") auto
  then show ?thesis using findContactPage_website [of origin response nm] by blast
qed

lemma acme_world_eq: "db acme_world = \<lparr> organizations = [acme_row], attempts_table = [] \<rparr>"
  by (simp add: acme_world_def acme_row_def importOrgs_def insert_or_ignore_def getOrg_def
        empty_db_def next_rowid_def)

lemma acme_search:
  "searchResultFor (acme_env acme_found p) ''Acme Org'' =
     \<lparr> orgName_cp = ''Acme Org'', websiteUrl = Some ''https://acme.org'',
       contactUrl_cp = Some ''https://acme.org/contact'',
       contactTitle = Some ''Contact Acme'', error_cp = None \<rparr>"
proof -
  have "findContactPage (\<lambda>_. Inr ''https://acme.org'') acme_found ''Acme Org'' =
     \<lparr> orgName_cp = ''Acme Org'', websiteUrl = Some ''https://acme.org'',
       contactUrl_cp = Some ''https://acme.org/contact'',
       contactTitle = Some ''Contact Acme'', error_cp = None \<rparr>"
    by code_simp
  then show ?thesis by (simp add: acme_env_def)
qed

lemma acme_pending:
  "distinct (map name (organizations (db acme_world)))"
  "distinct (map id_org (organizations (db acme_world)))"
  "acme_row \<in> set (organizations (db acme_world))"
  "status acme_row = Pending"
  by (simp_all add: acme_world_eq) (simp add: acme_row_def)

lemma acme_row_fields:
  "name acme_row = ''Acme Org''" "id_org acme_row = 1" "attempts acme_row = 0"
  by (simp_all add: acme_row_def)

lemma processOrg_stageB:
  assumes "contactUrl_cp (searchResultFor env (name org)) = Some u" and "u \<noteq> []"
    and "ci = extractContactInfo (page env (name org) u) (name org) u"
  shows "processOrg env org w =
     do_log env (name org) ContactFind (\<not> truthy (error ci) \<and> contactType ci \<noteq> NoContact)
       (if truthy (error ci) then optional_field ''error'' (error ci)
        else [(''type'', JString (contact_type_text (contactType ci))),
              (''email'', nullable (email ci)),
              (''formUrl'', nullable (formUrl ci))])
       (do_update env (name org)
          \<lparr> website_new = websiteUrl (searchResultFor env (name org)),
            contact_type_new = Some (if truthy (error ci) then NoContact else contactType ci),
            contact_value_new =
              (if truthy (error ci) then None else js_or (email ci) (formUrl ci)),
            status_new = (if truthy (error ci) then Failed
                          else if contactType ci = NoContact then Manual else Success),
            error_message_new = (if truthy (error ci) then error ci else None) \<rparr>
          ((do_log env (name org) Search True [(''url'', JString u)] w)
             \<lparr> visited := visited w @ [(name org, u)] \<rparr>))"
  using assms
  by (simp add: processOrg_def Let_def truthy_def visited_do_log)

lemma batch_search_failed:
  assumes "distinct (map name (organizations (db w)))"
    and "distinct (map id_org (organizations (db w)))"
    and "g \<in> set (organizations (db w))" and "status g = Pending"
    and "\<not> truthy (contactUrl_cp (searchResultFor env (name g)))"
  shows "\<exists>g' a. getOrg (name g) (db (batch env w)) = Some g' \<and>
           status g' = Failed \<and>
           contact_type g' = Some NoContact \<and> contact_value g' = None \<and>
           website g' = website g \<and>
           error_message g' = error_cp (searchResultFor env (name g)) \<and>
           attempts g' = attempts g + 1 \<and> last_attempt_at g' \<noteq> None \<and>
           attempts_for (id_org g) (db (batch env w)) = attempts_for (id_org g) (db w) @ [a] \<and>
           attempt_type a = Search \<and> \<not> success a \<and>
           details a = Some (optional_field ''error'' (error_cp (searchResultFor env (name g)))) \<and>
           visits_of (name g) (batch env w) = visits_of (name g) w"
proof -
  let ?sr = "searchResultFor env (name g)"
  let ?data = "\<lparr> website_new = None, contact_type_new = Some NoContact,
            contact_value_new = None, status_new = Failed,
            error_message_new = error_cp ?sr \<rparr>"
  obtain w1 where w1: "getOrg (name g) (db w1) = Some g"
      "attempts_for (id_org g) (db w1) = attempts_for (id_org g) (db w)"
      "visits_of (name g) w1 = visits_of (name g) w"
      "getOrg (name g) (db (batch env w)) = getOrg (name g) (db (processOrg env g w1))"
      "attempts_for (id_org g) (db (batch env w)) = attempts_for (id_org g) (db (processOrg env g w1))"
      "visits_of (name g) (batch env w) = visits_of (name g) (processOrg env g w1)"
    using batch_focus_pending [OF assms(1-4), of env] by blast
  let ?wu = "do_update env (name g) ?data w1"
  have p: "processOrg env g w1 =
      do_log env (name g) Search False (optional_field ''error'' (error_cp ?sr)) ?wu"
    using assms(5) by (rule processOrg_search_failed)
  have gu: "getOrg (name g) (db ?wu) =
     Some (g\<lparr> website := website g, contact_type := Some NoContact, contact_value := None,
              status := Failed, error_message := error_cp ?sr, attempts := attempts g + 1,
              last_attempt_at := Some (timestamp env (writes w1)) \<rparr>)"
    using getOrg_do_update_same [OF w1(1), of env ?data] by simp
  have au: "attempts_for (id_org g) (db ?wu) = attempts_for (id_org g) (db w1)"
    by (rule attempts_for_do_update)
  have al: "attempts_for (id_org g) (db (processOrg env g w1)) =
      attempts_for (id_org g) (db ?wu) @
       [\<lparr> id_att = next_rowid (map id_att (attempts_table (db ?wu))), org_id = id_org g,
          attempt_type = Search, success = False,
          details = Some (optional_field ''error'' (error_cp ?sr)),
          screenshot_path = None, created_at_att = timestamp env (writes ?wu) \<rparr>]"
    unfolding p using attempts_for_do_log_same [OF gu, of env Search False] by simp
  have gl: "getOrg (name g) (db (processOrg env g w1)) = getOrg (name g) (db ?wu)"
    unfolding p by (rule getOrg_do_log)
  have vl: "visits_of (name g) (processOrg env g w1) = visits_of (name g) w1"
    unfolding p by (simp add: visits_of_def visited_do_log visited_do_update)
  show ?thesis
    using w1 gu al au gl vl by simp
qed

lemma batch_stageB:
  assumes "distinct (map name (organizations (db w)))"
    and "distinct (map id_org (organizations (db w)))"
    and "g \<in> set (organizations (db w))" and "status g = Pending"
    and "contactUrl_cp (searchResultFor env (name g)) = Some u" and "u \<noteq> []"
    and "ci = extractContactInfo (page env (name g) u) (name g) u"
  shows "\<exists>g' b a.
           getOrg (name g) (db (batch env w)) = Some g' \<and>
           status g' = (if truthy (error ci) then Failed
                        else if contactType ci = NoContact then Manual else Success) \<and>
           contact_type g' = Some (if truthy (error ci) then NoContact else contactType ci) \<and>
           contact_value g' =
             (if truthy (error ci) then None else js_or (email ci) (formUrl ci)) \<and>
           error_message g' = (if truthy (error ci) then error ci else None) \<and>
           website g' = websiteUrl (searchResultFor env (name g)) \<and>
           website g' \<noteq> None \<and>
           attempts g' = attempts g + 1 \<and> last_attempt_at g' \<noteq> None \<and>
           attempts_for (id_org g) (db (batch env w)) =
             attempts_for (id_org g) (db w) @ [b, a] \<and>
           attempt_type b = Search \<and> success b \<and>
           details b = Some [(''url'', JString u)] \<and>
           attempt_type a = ContactFind \<and>
           success a = (\<not> truthy (error ci) \<and> contactType ci \<noteq> NoContact) \<and>
           details a =
             Some (if truthy (error ci) then optional_field ''error'' (error ci)
                   else [(''type'', JString (contact_type_text (contactType ci))),
                         (''email'', nullable (email ci)),
                         (''formUrl'', nullable (formUrl ci))]) \<and>
           visits_of (name g) (batch env w) = visits_of (name g) w @ [(name g, u)]"
proof -
  let ?sr = "searchResultFor env (name g)"
  let ?ok = "\<not> truthy (error ci) \<and> contactType ci \<noteq> NoContact"
  let ?data = "\<lparr> website_new = websiteUrl ?sr,
            contact_type_new = Some (if truthy (error ci) then NoContact else contactType ci),
            contact_value_new =
              (if truthy (error ci) then None else js_or (email ci) (formUrl ci)),
            status_new = (if truthy (error ci) then Failed
                          else if contactType ci = NoContact then Manual else Success),
            error_message_new = (if truthy (error ci) then error ci else None) \<rparr>"
  let ?det = "if truthy (error ci) then optional_field ''error'' (error ci)
        else [(''type'', JString (contact_type_text (contactType ci))),
              (''email'', nullable (email ci)),
              (''formUrl'', nullable (formUrl ci))]"
  obtain site where site: "websiteUrl ?sr = Some site"
    using findContactPage_found [OF assms(5)] by auto
  obtain w1 where w1: "getOrg (name g) (db w1) = Some g"
      "attempts_for (id_org g) (db w1) = attempts_for (id_org g) (db w)"
      "visits_of (name g) w1 = visits_of (name g) w"
      "getOrg (name g) (db (batch env w)) = getOrg (name g) (db (processOrg env g w1))"
      "attempts_for (id_org g) (db (batch env w)) = attempts_for (id_org g) (db (processOrg env g w1))"
      "visits_of (name g) (batch env w) = visits_of (name g) (processOrg env g w1)"
    using batch_focus_pending [OF assms(1-4), of env] by blast
  let ?ws = "do_log env (name g) Search True [(''url'', JString u)] w1"
  let ?wv = "?ws\<lparr> visited := visited w1 @ [(name g, u)] \<rparr>"
  let ?wu = "do_update env (name g) ?data ?wv"
  have p: "processOrg env g w1 = do_log env (name g) ContactFind ?ok ?det ?wu"
    using assms(5-7) by (rule processOrg_stageB)
  have as: "attempts_for (id_org g) (db ?wv) =
      attempts_for (id_org g) (db w1) @
       [\<lparr> id_att = next_rowid (map id_att (attempts_table (db w1))), org_id = id_org g,
          attempt_type = Search, success = True,
          details = Some [(''url'', JString u)],
          screenshot_path = None, created_at_att = timestamp env (writes w1) \<rparr>]"
    using attempts_for_do_log_same [OF w1(1), of env Search True] by simp
  have gv: "getOrg (name g) (db ?wv) = Some g"
    using w1(1) by (simp add: getOrg_do_log)
  have gu: "getOrg (name g) (db ?wu) =
     Some (g\<lparr> website := Some site,
              contact_type := Some (if truthy (error ci) then NoContact else contactType ci),
              contact_value :=
                (if truthy (error ci) then None else js_or (email ci) (formUrl ci)),
              status := (if truthy (error ci) then Failed
                         else if contactType ci = NoContact then Manual else Success),
              error_message := (if truthy (error ci) then error ci else None),
              attempts := attempts g + 1,
              last_attempt_at := Some (timestamp env (writes ?wv)) \<rparr>)"
    using getOrg_do_update_same [OF gv, of env ?data] site by simp
  have au: "attempts_for (id_org g) (db ?wu) = attempts_for (id_org g) (db ?wv)"
    by (rule attempts_for_do_update)
  have al: "attempts_for (id_org g) (db (processOrg env g w1)) =
      attempts_for (id_org g) (db ?wu) @
       [\<lparr> id_att = next_rowid (map id_att (attempts_table (db ?wu))), org_id = id_org g,
          attempt_type = ContactFind, success = ?ok,
          details = Some ?det,
          screenshot_path = None, created_at_att = timestamp env (writes ?wu) \<rparr>]"
    unfolding p using attempts_for_do_log_same [OF gu, of env ContactFind ?ok ?det]
    by simp
  have gl: "getOrg (name g) (db (processOrg env g w1)) = getOrg (name g) (db ?wu)"
    unfolding p by (rule getOrg_do_log)
  have vl: "visits_of (name g) (processOrg env g w1) = visits_of (name g) w1 @ [(name g, u)]"
    unfolding p by (simp add: visits_of_def visited_do_log visited_do_update)
  show ?thesis
    using w1(2,3,4,5,6) gl al au as gu site vl by simp
qed




lemma names_resetOrg: "map name (organizations (resetOrg nm d)) = map name (organizations d)"
  by (simp add: resetOrg_def comp_def cong: map_cong)

lemma ids_resetOrg: "map id_org (organizations (resetOrg nm d)) = map id_org (organizations d)"
  by (simp add: resetOrg_def comp_def cong: map_cong)

lemma member_resetOrg:
  "h \<in> set (organizations d) \<Longrightarrow>
   h\<lparr> status := Pending, error_message := None \<rparr> \<in> set (organizations (resetOrg (name h) d))"
  by (force simp: resetOrg_def)

section \<open>The candidate ranker\<close>






section \<open>The rate limiter\<close>

lemma rateLimit_min_spacing:
  assumes "\<forall>d. now + d \<le> wake d" and "now \<le> later"
  shows "lastRequestTime s + minDelayMs s \<le> lastRequestTime (fst (rateLimit now wake later s))"
proof (cases "now - lastRequestTime s < minDelayMs s")
  case True
  have "now + (minDelayMs s - (now - lastRequestTime s))
          \<le> wake (minDelayMs s - (now - lastRequestTime s))"
    using assms(1) by blast
  then show ?thesis using True by (simp add: rateLimit_def Let_def)
next
  case False
  then show ?thesis using assms(2) by (simp add: rateLimit_def Let_def)
qed



section \<open>The pipeline's terminal writes\<close>

text \<open>
  C2. Take a store whose names and ids are unique and a pending organization \<open>g\<close> whose
  stage-A search gives no usable contact URL or reports an error. After the batch pass
  the row of \<open>g\<close> has status \<open>failed\<close> and the search result's error as error message, its
  \<open>attempts\<close> is one more than before (1 for a freshly imported row) and
  \<open>last_attempt_at\<close> is set; the attempts of \<open>g\<close> grew by exactly one row, of type
  \<open>search\<close> with \<open>success\<close> false and the error as details; and the pass made no
  extraction call for \<open>g\<close>.
\<close>

theorem batch_search_failure:
  assumes "distinct (map name (organizations (db w)))"
    and "distinct (map id_org (organizations (db w)))"
    and "g \<in> set (organizations (db w))" and "status g = Pending"
    and "\<not> truthy (contactUrl_cp (searchResultFor env (name g))) \<or>
         error_cp (searchResultFor env (name g)) \<noteq> None"
  shows "\<exists>g' a. getOrg (name g) (db (batch env w)) = Some g' \<and>
           status g' = Failed \<and>
           error_message g' = error_cp (searchResultFor env (name g)) \<and>
           attempts g' = attempts g + 1 \<and> last_attempt_at g' \<noteq> None \<and>
           attempts_for (id_org g) (db (batch env w)) = attempts_for (id_org g) (db w) @ [a] \<and>
           attempt_type a = Search \<and> \<not> success a \<and>
           details a = Some (optional_field ''error'' (error_cp (searchResultFor env (name g)))) \<and>
           visits_of (name g) (batch env w) = visits_of (name g) w"
proof -
  have nf: "\<not> truthy (contactUrl_cp (searchResultFor env (name g)))"
    using assms(5) findContactPage_error [of "url_origin env" "search_response env (name g)" "name g"]
    by (auto simp: truthy_def)
  show ?thesis
    using batch_search_failed [OF assms(1-4) nf] by blast
qed

theorem batch_search_failure_witness:
  "\<exists>g' a. getOrg ''Acme Org'' (db (batch (acme_env (Threw ''fetch failed'') (Inl [])) acme_world)) = Some g' \<and>
      status g' = Failed \<and> error_message g' = Some ''fetch failed'' \<and> attempts g' = 1 \<and>
      attempts_for 1 (db (batch (acme_env (Threw ''fetch failed'') (Inl [])) acme_world)) = [a] \<and>
      attempt_type a = Search \<and> \<not> success a \<and>
      visits_of ''Acme Org'' (batch (acme_env (Threw ''fetch failed'') (Inl [])) acme_world) = []"
proof -
  let ?env = "acme_env (Threw ''fetch failed'') (Inl [])"
  have sr: "searchResultFor ?env ''Acme Org'' = failedSearch ''Acme Org'' ''fetch failed''"
    by (simp add: acme_env_def findContactPage_def)
  have h5: "\<not> truthy (contactUrl_cp (searchResultFor ?env (name acme_row))) \<or>
         error_cp (searchResultFor ?env (name acme_row)) \<noteq> None"
    unfolding acme_row_fields sr by (simp add: failedSearch_def truthy_def)
  have v0: "visits_of ''Acme Org'' acme_world = []"
    by (simp add: visits_of_def acme_world_def)
  have a0: "attempts_for 1 (db acme_world) = []"
    by (simp add: attempts_for_def acme_world_eq)
  show ?thesis
    using batch_search_failure [OF acme_pending h5]
    unfolding acme_row_fields sr v0 a0 by (simp add: failedSearch_def) blast
qed

text \<open>
  C3. Take a store whose names and ids are unique and a pending organization \<open>g\<close> for
  which stage A found the contact URL \<open>u\<close> and the extraction at \<open>u\<close> returned without
  error; let \<open>ci\<close> be the selector's result. After the batch pass: if the contact type
  of \<open>ci\<close> is \<open>none\<close> the status of \<open>g\<close> is \<open>manual\<close>; otherwise the status is \<open>success\<close>, the
  row holds the contact type, the contact value \<open>email || formUrl\<close> and the website
  found by stage A, and the attempts of \<open>g\<close> grew by the stage-A row followed by a
  \<open>contact_find\<close> row with \<open>success\<close> true and the selected channel as details.
\<close>

theorem batch_extraction_completed:
  assumes "distinct (map name (organizations (db w)))"
    and "distinct (map id_org (organizations (db w)))"
    and "g \<in> set (organizations (db w))" and "status g = Pending"
    and "contactUrl_cp (searchResultFor env (name g)) = Some u" and "u \<noteq> []"
    and "page env (name g) u = Inr ex"
    and "ci = extractContactInfo (Inr ex) (name g) u"
  shows "\<exists>g' b a.
           getOrg (name g) (db (batch env w)) = Some g' \<and>
           (contactType ci = NoContact \<longrightarrow> status g' = Manual) \<and>
           (contactType ci \<noteq> NoContact \<longrightarrow>
              status g' = Success \<and>
              contact_type g' = Some (contactType ci) \<and>
              contact_value g' = js_or (email ci) (formUrl ci) \<and>
              website g' = websiteUrl (searchResultFor env (name g)) \<and>
              website g' \<noteq> None \<and>
              attempts_for (id_org g) (db (batch env w)) =
                attempts_for (id_org g) (db w) @ [b, a] \<and>
              attempt_type a = ContactFind \<and> success a \<and>
              details a =
                Some [(''type'', JString (contact_type_text (contactType ci))),
                      (''email'', nullable (email ci)),
                      (''formUrl'', nullable (formUrl ci))])"
proof -
  have ci: "ci = extractContactInfo (page env (name g) u) (name g) u"
    using assms(7,8) by simp
  have ne: "\<not> truthy (error ci)"
    unfolding assms(8) by (simp add: extractContactInfo_def Let_def truthy_def)
  show ?thesis
    using batch_stageB [OF assms(1-6) ci] ne by auto
qed

theorem batch_extraction_completed_witness:
  "(\<exists>g'. getOrg ''Acme Org''
           (db (batch (acme_env acme_found
                  (Inr \<lparr> emails = [], hasContactForm = False, formAction = None,
                         phoneNumbers = None \<rparr>)) acme_world)) = Some g' \<and>
         status g' = Manual) \<and>
   (\<exists>g'. getOrg ''Acme Org''
           (db (batch (acme_env acme_found
                  (Inr \<lparr> emails = [''jane@acme.org''], hasContactForm = False,
                         formAction = None, phoneNumbers = None \<rparr>)) acme_world)) = Some g' \<and>
         status g' = Success \<and> contact_type g' = Some Email \<and>
         contact_value g' = Some ''jane@acme.org'' \<and>
         website g' = Some ''https://acme.org'')"
proof -
  let ?u = "''https://acme.org/contact''"
  let ?ex1 = "\<lparr> emails = [], hasContactForm = False, formAction = None,
                phoneNumbers = None \<rparr>"
  let ?ex2 = "\<lparr> emails = [''jane@acme.org''], hasContactForm = False,
                formAction = None, phoneNumbers = None \<rparr>"
  have u: "?u \<noteq> []" by simp
  have c1: "extractContactInfo (Inr ?ex1) ''Acme Org'' ?u =
      \<lparr> orgName = ''Acme Org'', contactUrl = ?u, email = None, formUrl = None,
        contactType = NoContact, error = None \<rparr>"
    by code_simp
  have c2: "extractContactInfo (Inr ?ex2) ''Acme Org'' ?u =
      \<lparr> orgName = ''Acme Org'', contactUrl = ?u, email = Some ''jane@acme.org'',
        formUrl = None, contactType = Email, error = None \<rparr>"
    by code_simp
  have s1: "contactUrl_cp (searchResultFor (acme_env acme_found (Inr ?ex1)) (name acme_row)) = Some ?u"
    and s2: "contactUrl_cp (searchResultFor (acme_env acme_found (Inr ?ex2)) (name acme_row)) = Some ?u"
    unfolding acme_row_fields acme_search by simp_all
  have p1: "page (acme_env acme_found (Inr ?ex1)) (name acme_row) ?u = Inr ?ex1"
    and p2: "page (acme_env acme_found (Inr ?ex2)) (name acme_row) ?u = Inr ?ex2"
    by (simp_all add: acme_env_def)
  have "\<exists>g'. getOrg ''Acme Org'' (db (batch (acme_env acme_found (Inr ?ex1)) acme_world)) = Some g' \<and>
         status g' = Manual"
    using batch_extraction_completed [OF acme_pending s1 u p1 refl]
    unfolding acme_row_fields c1 by auto
  moreover have "\<exists>g'. getOrg ''Acme Org'' (db (batch (acme_env acme_found (Inr ?ex2)) acme_world)) = Some g' \<and>
         status g' = Success \<and> contact_type g' = Some Email \<and>
         contact_value g' = Some ''jane@acme.org'' \<and>
         website g' = Some ''https://acme.org''"
    using batch_extraction_completed [OF acme_pending s2 u p2 refl]
    unfolding acme_row_fields c2 acme_search by (auto simp: js_or_def truthy_def)
  ultimately show ?thesis by blast
qed

text \<open>
  C6. The selected \<open>formUrl\<close> of a completed extraction is the extracted form-action URL
  when one is supplied (a non-empty string); without one (absent or empty) it is the
  contact page URL when the form flag is true, and \<open>null\<close> otherwise. End to end: for a
  pending organization whose stage A found the contact URL \<open>cu\<close> and whose extraction
  returned no emails, the form flag and no form-action URL, the batch pass stores
  status \<open>success\<close>, contact type \<open>form\<close> and \<open>cu\<close> as contact value.
\<close>

theorem formUrl_selection:
  "(\<forall>a. formAction ex = Some a \<and> a \<noteq> [] \<longrightarrow>
        formUrl (extractContactInfo (Inr ex) nm u) = Some a) \<and>
   ((formAction ex = None \<or> formAction ex = Some []) \<and> hasContactForm ex \<longrightarrow>
        formUrl (extractContactInfo (Inr ex) nm u) = Some u) \<and>
   ((formAction ex = None \<or> formAction ex = Some []) \<and> \<not> hasContactForm ex \<longrightarrow>
        formUrl (extractContactInfo (Inr ex) nm u) = None) \<and>
   (distinct (map name (organizations (db w))) \<and>
    distinct (map id_org (organizations (db w))) \<and>
    g \<in> set (organizations (db w)) \<and> status g = Pending \<and>
    contactUrl_cp (searchResultFor env (name g)) = Some cu \<and> cu \<noteq> [] \<and>
    page env (name g) cu = Inr ex \<and>
    emails ex = [] \<and> hasContactForm ex \<and> formAction ex = None \<longrightarrow>
      (\<exists>g'. getOrg (name g) (db (batch env w)) = Some g' \<and>
            status g' = Success \<and> contact_type g' = Some Form \<and>
            contact_value g' = Some cu))"
proof (intro conjI allI impI)
  fix a
  assume "formAction ex = Some a \<and> a \<noteq> []"
  then show "formUrl (extractContactInfo (Inr ex) nm u) = Some a"
    by (simp add: extractContactInfo_def Let_def js_or_def truthy_def)
next
  assume "(formAction ex = None \<or> formAction ex = Some []) \<and> hasContactForm ex"
  then show "formUrl (extractContactInfo (Inr ex) nm u) = Some u"
    by (auto simp: extractContactInfo_def Let_def js_or_def truthy_def)
next
  assume "(formAction ex = None \<or> formAction ex = Some []) \<and> \<not> hasContactForm ex"
  then show "formUrl (extractContactInfo (Inr ex) nm u) = None"
    by (auto simp: extractContactInfo_def Let_def js_or_def truthy_def)
next
  assume a: "distinct (map name (organizations (db w))) \<and>
    distinct (map id_org (organizations (db w))) \<and>
    g \<in> set (organizations (db w)) \<and> status g = Pending \<and>
    contactUrl_cp (searchResultFor env (name g)) = Some cu \<and> cu \<noteq> [] \<and>
    page env (name g) cu = Inr ex \<and>
    emails ex = [] \<and> hasContactForm ex \<and> formAction ex = None"
  define ci where "ci = extractContactInfo (page env (name g) cu) (name g) cu"
  have ci: "ci = \<lparr> orgName = name g, contactUrl = cu, email = None, formUrl = Some cu,
                   contactType = Form, error = None \<rparr>"
    using a by (simp add: ci_def extractContactInfo_def Let_def js_or_def truthy_def bestEmail_def)
  have h: "distinct (map name (organizations (db w)))"
     "distinct (map id_org (organizations (db w)))"
     "g \<in> set (organizations (db w))" "status g = Pending"
     "contactUrl_cp (searchResultFor env (name g)) = Some cu" "cu \<noteq> []"
    using a by simp_all
  show "\<exists>g'. getOrg (name g) (db (batch env w)) = Some g' \<and>
            status g' = Success \<and> contact_type g' = Some Form \<and>
            contact_value g' = Some cu"
    using batch_stageB [OF h ci_def] unfolding ci
    by (auto simp: js_or_def truthy_def)
qed

theorem formUrl_selection_witness:
  "formUrl (extractContactInfo
      (Inr \<lparr> emails = [], hasContactForm = False, formAction = Some ''https://acme.org/send'',
             phoneNumbers = None \<rparr>) ''Acme Org'' ''https://acme.org/contact'')
     = Some ''https://acme.org/send'' \<and>
   formUrl (extractContactInfo
      (Inr \<lparr> emails = [], hasContactForm = True, formAction = None,
             phoneNumbers = None \<rparr>) ''Acme Org'' ''https://acme.org/contact'')
     = Some ''https://acme.org/contact'' \<and>
   formUrl (extractContactInfo
      (Inr \<lparr> emails = [], hasContactForm = False, formAction = Some [],
             phoneNumbers = None \<rparr>) ''Acme Org'' ''https://acme.org/contact'')
     = None \<and>
   (\<exists>g'. getOrg ''Acme Org''
           (db (batch (acme_env acme_found
                  (Inr \<lparr> emails = [], hasContactForm = True, formAction = None,
                         phoneNumbers = None \<rparr>)) acme_world)) = Some g' \<and>
         status g' = Success \<and> contact_type g' = Some Form \<and>
         contact_value g' = Some ''https://acme.org/contact'')"
proof -
  let ?u = "''https://acme.org/contact''"
  let ?ex = "\<lparr> emails = [], hasContactForm = True, formAction = None,
               phoneNumbers = None \<rparr>"
  have s: "contactUrl_cp (searchResultFor (acme_env acme_found (Inr ?ex)) (name acme_row)) = Some ?u"
    unfolding acme_row_fields acme_search by simp
  have p: "page (acme_env acme_found (Inr ?ex)) (name acme_row) ?u = Inr ?ex"
    by (simp add: acme_env_def)
  have 1: "formUrl (extractContactInfo
      (Inr \<lparr> emails = [], hasContactForm = False, formAction = Some ''https://acme.org/send'',
             phoneNumbers = None \<rparr>) ''Acme Org'' ?u) = Some ''https://acme.org/send''"
    using formUrl_selection [of "\<lparr> emails = [], hasContactForm = False,
        formAction = Some ''https://acme.org/send'', phoneNumbers = None \<rparr>" "''Acme Org''" ?u]
    by simp
  have 2: "formUrl (extractContactInfo (Inr ?ex) ''Acme Org'' ?u) = Some ?u"
    using formUrl_selection [of ?ex "''Acme Org''" ?u] by simp
  have 3: "formUrl (extractContactInfo
      (Inr \<lparr> emails = [], hasContactForm = False, formAction = Some [],
             phoneNumbers = None \<rparr>) ''Acme Org'' ?u) = None"
    using formUrl_selection [of "\<lparr> emails = [], hasContactForm = False,
        formAction = Some [], phoneNumbers = None \<rparr>" "''Acme Org''" ?u]
    by simp
  have 4: "\<exists>g'. getOrg ''Acme Org'' (db (batch (acme_env acme_found (Inr ?ex)) acme_world)) = Some g' \<and>
         status g' = Success \<and> contact_type g' = Some Form \<and>
         contact_value g' = Some ?u"
    using formUrl_selection [of ?ex _ _ acme_world acme_row "acme_env acme_found (Inr ?ex)" ?u]
      acme_pending s p
    unfolding acme_row_fields by simp
  from 1 2 3 4 show ?thesis by blast
qed




section \<open>The store's update\<close>

text \<open>
  C7. For the organization named in a call of \<open>updateOrgContact\<close>: with no website
  supplied the stored website stays as it was, with a website supplied it becomes that
  one; \<open>attempts\<close> grows by exactly one and \<open>last_attempt_at\<close> is the time of the call.
\<close>

theorem updateOrgContact_coalesce:
  assumes "getOrg nm d = Some h"
  shows "\<exists>h'. getOrg nm (updateOrgContact now nm data d) = Some h' \<and>
           (website_new data = None \<longrightarrow> website h' = website h) \<and>
           (\<forall>s. website_new data = Some s \<longrightarrow> website h' = Some s) \<and>
           attempts h' = attempts h + 1 \<and>
           last_attempt_at h' = Some now"
  using assms by (simp add: getOrg_updateOrgContact)

theorem updateOrgContact_coalesce_witness:
  "\<exists>h'. getOrg ''Acme Org''
           (updateOrgContact ''2025-01-03 00:00:00'' ''Acme Org''
              \<lparr> website_new = None, contact_type_new = Some NoContact,
                contact_value_new = None, status_new = Failed,
                error_message_new = Some ''timeout'' \<rparr> (db acme_cached)) = Some h' \<and>
         website h' = Some ''https://acme.org'' \<and> attempts h' = 2 \<and>
         last_attempt_at h' = Some ''2025-01-03 00:00:00''"
proof -
  let ?h = "acme_row\<lparr> website := Some ''https://acme.org'', contact_type := Some Email,
                           contact_value := Some ''info@acme.org'', status := Success,
                           attempts := 1, last_attempt_at := Some ''2025-01-01 12:00:00'' \<rparr>"
  have g: "getOrg ''Acme Org'' (db acme_cached) = Some ?h"
    by (simp add: acme_cached_def getOrg_def acme_row_def)
  show ?thesis
    using updateOrgContact_coalesce [OF g, of "''2025-01-03 00:00:00''"
        "\<lparr> website_new = None, contact_type_new = Some NoContact,
                contact_value_new = None, status_new = Failed,
                error_message_new = Some ''timeout'' \<rparr>"]
    by (simp add: acme_row_def numeral_2_eq_2)
qed

text \<open>
  C9. \<open>updateOrgContact\<close> writes the supplied \<open>contact_type\<close>, \<open>contact_value\<close> and
  \<open>error_message\<close> (null when omitted) whatever the row held. So for any organization of
  a store with unique names and ids, whatever channel it holds: after a reset to pending,
  a pass whose stage A fails, or whose stage B fails with an error message, leaves the row
  with status \<open>failed\<close>, \<open>contact_type\<close> \<open>none\<close> and a null \<open>contact_value\<close>.
\<close>

theorem failed_pass_erases_channel:
  "(getOrg nm d = Some h \<longrightarrow>
      (\<exists>h'. getOrg nm (updateOrgContact now nm data d) = Some h' \<and>
            contact_type h' = contact_type_new data \<and>
            contact_value h' = contact_value_new data \<and>
            error_message h' = error_message_new data)) \<and>
   (distinct (map name (organizations (db w))) \<and>
    distinct (map id_org (organizations (db w))) \<and>
    c \<in> set (organizations (db w)) \<and>
    (\<not> truthy (contactUrl_cp (searchResultFor env (name c))) \<or>
     (\<exists>u msg. contactUrl_cp (searchResultFor env (name c)) = Some u \<and> u \<noteq> [] \<and>
              page env (name c) u = Inl msg \<and> msg \<noteq> [])) \<longrightarrow>
      (\<exists>g'. getOrg (name c) (db (batch env (w\<lparr> db := resetOrg (name c) (db w) \<rparr>))) = Some g' \<and>
            status g' = Failed \<and> contact_type g' = Some NoContact \<and>
            contact_value g' = None))"
proof (intro conjI impI)
  assume "getOrg nm d = Some h"
  then show "\<exists>h'. getOrg nm (updateOrgContact now nm data d) = Some h' \<and>
            contact_type h' = contact_type_new data \<and>
            contact_value h' = contact_value_new data \<and>
            error_message h' = error_message_new data"
    by (simp add: getOrg_updateOrgContact)
next
  assume a: "distinct (map name (organizations (db w))) \<and>
    distinct (map id_org (organizations (db w))) \<and>
    c \<in> set (organizations (db w)) \<and>
    (\<not> truthy (contactUrl_cp (searchResultFor env (name c))) \<or>
     (\<exists>u msg. contactUrl_cp (searchResultFor env (name c)) = Some u \<and> u \<noteq> [] \<and>
              page env (name c) u = Inl msg \<and> msg \<noteq> []))"
  let ?w = "w\<lparr> db := resetOrg (name c) (db w) \<rparr>"
  let ?g = "c\<lparr> status := Pending, error_message := None \<rparr>"
  have h: "distinct (map name (organizations (db ?w)))"
    "distinct (map id_org (organizations (db ?w)))"
    "?g \<in> set (organizations (db ?w))" "status ?g = Pending"
    using a by (simp_all add: names_resetOrg ids_resetOrg member_resetOrg)
  have n: "name ?g = name c" by simp
  from a have "\<not> truthy (contactUrl_cp (searchResultFor env (name c))) \<or>
     (\<exists>u msg. contactUrl_cp (searchResultFor env (name c)) = Some u \<and> u \<noteq> [] \<and>
              page env (name c) u = Inl msg \<and> msg \<noteq> [])" by blast
  then show "\<exists>g'. getOrg (name c) (db (batch env ?w)) = Some g' \<and>
            status g' = Failed \<and> contact_type g' = Some NoContact \<and>
            contact_value g' = None"
  proof
    assume nf: "\<not> truthy (contactUrl_cp (searchResultFor env (name c)))"
    then have "\<not> truthy (contactUrl_cp (searchResultFor env (name ?g)))" by simp
    from batch_search_failed [OF h this] show ?thesis unfolding n by blast
  next
    assume "\<exists>u msg. contactUrl_cp (searchResultFor env (name c)) = Some u \<and> u \<noteq> [] \<and>
              page env (name c) u = Inl msg \<and> msg \<noteq> []"
    then obtain u msg where u: "contactUrl_cp (searchResultFor env (name ?g)) = Some u" "u \<noteq> []"
      and p: "page env (name c) u = Inl msg" "msg \<noteq> []" by auto
    define ci where "ci = extractContactInfo (page env (name ?g) u) (name ?g) u"
    have t: "truthy (error ci)"
      using p by (simp add: ci_def extractContactInfo_def truthy_def)
    from batch_stageB [OF h u ci_def] t show ?thesis unfolding n by auto
  qed
qed

theorem failed_pass_erases_channel_witness:
  "(\<exists>h'. getOrg ''Acme Org''
           (updateOrgContact ''2025-01-03 00:00:00'' ''Acme Org''
              \<lparr> website_new = None, contact_type_new = Some NoContact,
                contact_value_new = None, status_new = Failed,
                error_message_new = None \<rparr> (db acme_cached)) = Some h' \<and>
         contact_type h' = Some NoContact \<and> contact_value h' = None \<and>
         error_message h' = None) \<and>
   (\<exists>g'. getOrg ''Acme Org''
           (db (batch (acme_env (Threw ''fetch failed'') (Inl []))
                  (acme_cached\<lparr> db := resetOrg ''Acme Org'' (db acme_cached) \<rparr>))) = Some g' \<and>
         status g' = Failed \<and> contact_type g' = Some NoContact \<and> contact_value g' = None) \<and>
   (\<exists>g'. getOrg ''Acme Org''
           (db (batch (acme_env acme_found (Inl ''Navigation timeout''))
                  (acme_cached\<lparr> db := resetOrg ''Acme Org'' (db acme_cached) \<rparr>))) = Some g' \<and>
         status g' = Failed \<and> contact_type g' = Some NoContact \<and> contact_value g' = None)"
proof -
  let ?h = "acme_row\<lparr> website := Some ''https://acme.org'', contact_type := Some Email,
                           contact_value := Some ''info@acme.org'', status := Success,
                           attempts := 1, last_attempt_at := Some ''2025-01-01 12:00:00'' \<rparr>"
  have g: "getOrg ''Acme Org'' (db acme_cached) = Some ?h"
    by (simp add: acme_cached_def getOrg_def acme_row_def)
  have d: "distinct (map name (organizations (db acme_cached)))"
    "distinct (map id_org (organizations (db acme_cached)))"
    "?h \<in> set (organizations (db acme_cached))"
    by (simp_all add: acme_cached_def)
  have n: "name ?h = ''Acme Org''" by (simp add: acme_row_def)
  have sr: "searchResultFor (acme_env (Threw ''fetch failed'') (Inl [])) ''Acme Org''
      = failedSearch ''Acme Org'' ''fetch failed''"
    by (simp add: acme_env_def findContactPage_def)
  have f1: "\<not> truthy (contactUrl_cp (searchResultFor (acme_env (Threw ''fetch failed'') (Inl [])) (name ?h)))"
    unfolding n sr by (simp add: failedSearch_def truthy_def)
  have f2: "\<exists>u msg. contactUrl_cp (searchResultFor (acme_env acme_found (Inl ''Navigation timeout'')) (name ?h)) = Some u \<and> u \<noteq> [] \<and>
              page (acme_env acme_found (Inl ''Navigation timeout'')) (name ?h) u = Inl msg \<and> msg \<noteq> []"
    unfolding n acme_search by (simp add: acme_env_def)
  have 1: "\<exists>h'. getOrg ''Acme Org''
           (updateOrgContact ''2025-01-03 00:00:00'' ''Acme Org''
              \<lparr> website_new = None, contact_type_new = Some NoContact,
                contact_value_new = None, status_new = Failed,
                error_message_new = None \<rparr> (db acme_cached)) = Some h' \<and>
         contact_type h' = Some NoContact \<and> contact_value h' = None \<and>
         error_message h' = None"
    using failed_pass_erases_channel [of "''Acme Org''" "db acme_cached" ?h
        "''2025-01-03 00:00:00''"
        "\<lparr> website_new = None, contact_type_new = Some NoContact,
                contact_value_new = None, status_new = Failed,
                error_message_new = None \<rparr>"] g
    by simp
  have 2: "\<exists>g'. getOrg ''Acme Org''
           (db (batch (acme_env (Threw ''fetch failed'') (Inl []))
                  (acme_cached\<lparr> db := resetOrg ''Acme Org'' (db acme_cached) \<rparr>))) = Some g' \<and>
         status g' = Failed \<and> contact_type g' = Some NoContact \<and> contact_value g' = None"
    using failed_pass_erases_channel [of _ _ _ _ _ acme_cached ?h
        "acme_env (Threw ''fetch failed'') (Inl [])"] d f1
    unfolding n by blast
  have 3: "\<exists>g'. getOrg ''Acme Org''
           (db (batch (acme_env acme_found (Inl ''Navigation timeout''))
                  (acme_cached\<lparr> db := resetOrg ''Acme Org'' (db acme_cached) \<rparr>))) = Some g' \<and>
         status g' = Failed \<and> contact_type g' = Some NoContact \<and> contact_value g' = None"
    using failed_pass_erases_channel [of _ _ _ _ _ acme_cached ?h
        "acme_env acme_found (Inl ''Navigation timeout'')"] d f2
    unfolding n by blast
  from 1 2 3 show ?thesis by blast
qed

end
